theory Spec2Isabelle
  imports Complex_Main "HOL-Library.Word"
begin

section \<open>JavaScript strings\<close>

text \<open>
  A JavaScript string is a sequence of UTF-16 code units; \<open>length\<close>, \<open>substring\<close>,
  \<open>replace\<close> and a regular expression without the \<open>u\<close> flag all work on code units.
  \<open>js\<close> embeds an ASCII literal.
\<close>

type_synonym unit16 = "16 word"
type_synonym jsstring = "unit16 list"

definition js :: "string \<Rightarrow> jsstring" where
  "js s = map of_char s"

text \<open>
  \<open>String.prototype.trim\<close> strips the code units of ECMAScript's WhiteSpace and
  LineTerminator productions from both ends.
\<close>

definition isWhiteSpace :: "unit16 \<Rightarrow> bool" where
  "isWhiteSpace c \<longleftrightarrow>
     c = 0x09 \<or> c = 0x0A \<or> c = 0x0B \<or> c = 0x0C \<or> c = 0x0D \<or> c = 0x20 \<or> c = 0xA0 \<or>
     c = 0x1680 \<or> (0x2000 \<le> c \<and> c \<le> 0x200A) \<or> c = 0x2028 \<or> c = 0x2029 \<or>
     c = 0x202F \<or> c = 0x205F \<or> c = 0x3000 \<or> c = 0xFEFF"

definition trim :: "jsstring \<Rightarrow> jsstring" where
  "trim s = rev (dropWhile isWhiteSpace (rev (dropWhile isWhiteSpace s)))"

text \<open>\<open>s.substring(0, n)\<close> for a non-negative \<open>n\<close>.\<close>

definition substring0 :: "nat \<Rightarrow> jsstring \<Rightarrow> jsstring" where
  "substring0 n s = take n s"

section \<open>Regular expressions\<close>

text \<open>
  A character class is a list of ranges and single characters, as written between
  \<open>[\<close> and \<open>]\<close>. The classes of the source are ASCII.
\<close>

datatype cls_item = Rng char char | Lit char

fun in_item :: "unit16 \<Rightarrow> cls_item \<Rightarrow> bool" where
  "in_item c (Rng a b) = (of_char a \<le> c \<and> c \<le> of_char b)"
| "in_item c (Lit a) = (c = of_char a)"

definition in_class :: "cls_item list \<Rightarrow> unit16 \<Rightarrow> bool" where
  "in_class items c = list_ex (in_item c) items"

text \<open>
  \<open>s.replace(/[...]/g, rep)\<close> for a pattern that is one character class: every code
  unit of the class is replaced by \<open>rep\<close>, the others are kept.
\<close>

definition replace_class :: "(unit16 \<Rightarrow> bool) \<Rightarrow> jsstring \<Rightarrow> jsstring \<Rightarrow> jsstring" where
  "replace_class cls rep s = concat (map (\<lambda>c. if cls c then rep else [c]) s)"

text \<open>
  The regular expressions of the source use classes, sequencing, \<open>?\<close>, \<open>*\<close>, \<open>+\<close> and
  the bounded repetition \<open>{0,n}\<close>, and are anchored with \<open>^\<close> and \<open>$\<close>, so
  \<open>regex.test(s)\<close> holds exactly when the whole of \<open>s\<close> matches.
\<close>

datatype rx = Eps | Cls "cls_item list" | Seq rx rx | Opt rx | Star rx

function rx_match :: "rx \<Rightarrow> jsstring \<Rightarrow> bool" where
  "rx_match Eps s = (s = [])"
| "rx_match (Cls items) s = (case s of [c] \<Rightarrow> in_class items c | _ \<Rightarrow> False)"
| "rx_match (Seq a b) s =
     list_ex (\<lambda>i. rx_match a (take i s) \<and> rx_match b (drop i s)) [0..<Suc (length s)]"
| "rx_match (Opt a) s = (s = [] \<or> rx_match a s)"
| "rx_match (Star a) s =
     (s = [] \<or>
      list_ex (\<lambda>i. rx_match a (take i s) \<and> rx_match (Star a) (drop i s)) [1..<Suc (length s)])"
  by pat_completeness auto
termination
  by (relation "measures [\<lambda>(r, s). size r, \<lambda>(r, s). length s]") auto

declare rx_match.simps [simp del]

text \<open>\<open>r+\<close> is \<open>rr*\<close>, and \<open>r{0,n}\<close> is \<open>(?:r(?:r ... )?)?\<close> with \<open>n\<close> copies of \<open>r\<close>.\<close>

definition Plus :: "rx \<Rightarrow> rx" where
  "Plus r = Seq r (Star r)"

fun UpTo :: "nat \<Rightarrow> rx \<Rightarrow> rx" where
  "UpTo 0 r = Eps"
| "UpTo (Suc n) r = Opt (Seq r (UpTo n r))"

section \<open>Validators\<close>

text \<open>
  \<^verbatim>\<open>/^[a-zA-Z0-9.!#$%&'*+/=?^_`{|}~-]+@[a-zA-Z0-9](?:[a-zA-Z0-9-]{0,61}[a-zA-Z0-9])?
  (?:\.[a-zA-Z0-9](?:[a-zA-Z0-9-]{0,61}[a-zA-Z0-9])?)*$/\<close>
\<close>

definition localClass :: "cls_item list" where
  "localClass =
     [Rng CHR ''a'' CHR ''z'', Rng CHR ''A'' CHR ''Z'', Rng CHR ''0'' CHR ''9'',
      Lit CHR ''.'', Lit CHR ''!'', Lit CHR ''#'', Lit CHR ''$'', Lit CHR ''%'', Lit CHR ''&'',
      Lit (CHR 0x27), Lit CHR ''*'', Lit CHR ''+'', Lit CHR ''/'', Lit CHR ''='', Lit CHR ''?'',
      Lit CHR ''^'', Lit CHR ''_'', Lit (CHR 0x60), Lit CHR ''{'', Lit CHR ''|'', Lit CHR ''}'',
      Lit CHR ''~'', Lit CHR ''-'']"

definition alnumClass :: "cls_item list" where
  "alnumClass = [Rng CHR ''a'' CHR ''z'', Rng CHR ''A'' CHR ''Z'', Rng CHR ''0'' CHR ''9'']"

definition alnumHyphenClass :: "cls_item list" where
  "alnumHyphenClass =
     [Rng CHR ''a'' CHR ''z'', Rng CHR ''A'' CHR ''Z'', Rng CHR ''0'' CHR ''9'', Lit CHR ''-'']"

definition labelRegex :: rx where
  "labelRegex =
     Seq (Cls alnumClass) (Opt (Seq (UpTo 61 (Cls alnumHyphenClass)) (Cls alnumClass)))"

definition emailRegex :: rx where
  "emailRegex =
     Seq (Plus (Cls localClass))
       (Seq (Cls [Lit CHR ''@''])
         (Seq labelRegex (Star (Seq (Cls [Lit CHR ''.'']) labelRegex))))"

definition isValidEmail :: "jsstring \<Rightarrow> bool" where
  "isValidEmail email = rx_match emailRegex (trim email)"

text \<open>\<open>\D\<close> is every code unit outside \<open>[0-9]\<close>.\<close>

definition nonDigit :: "unit16 \<Rightarrow> bool" where
  "nonDigit c = (\<not> in_class [Rng CHR ''0'' CHR ''9''] c)"

definition isValidPhone :: "jsstring \<Rightarrow> bool" where
  "isValidPhone phone =
     (let digitsOnly = replace_class nonDigit [] phone
      in length digitsOnly \<ge> 10 \<and> length digitsOnly \<le> 15)"

text \<open>\<open>/[a-zA-Z]/.test(trimmed)\<close> is not anchored: some code unit is a letter.\<close>

definition isValidName :: "jsstring \<Rightarrow> bool" where
  "isValidName name =
     (let trimmed = trim name
      in length trimmed \<ge> 2 \<and>
         list_ex (in_class [Rng CHR ''a'' CHR ''z'', Rng CHR ''A'' CHR ''Z'']) trimmed)"

definition lineBreakOrTab :: "unit16 \<Rightarrow> bool" where
  "lineBreakOrTab c = in_class [Lit (CHR 0x0D), Lit (CHR 0x0A), Lit (CHR 0x09)] c"

definition sanitizeInput :: "jsstring \<Rightarrow> jsstring" where
  "sanitizeInput input = substring0 500 (replace_class lineBreakOrTab (js '' '') (trim input))"

section \<open>Allow-list lookup\<close>

text \<open>
  What \<open>JSON.parse\<close> returns. A number is kept as a rational: only whether it is zero
  is ever looked at. An object keeps its members in the order of the text.
\<close>

datatype json =
    JNull | JBool bool | JNum rat | JStr jsstring | JArr "json list"
  | JObj "(jsstring \<times> json) list"

text \<open>
  The file \<open>paidLearners.json\<close> as the three file-system and parser calls see it:
  \<open>existsSync\<close> is false, \<open>readFileSync\<close> throws, \<open>JSON.parse\<close> throws, or the
  text parses to a value.
\<close>

datatype roster_file = NotFound | Unreadable | Malformed | Parsed json

datatype error =
  TypeError | SyntaxError | IOError | GuildNotFound | MemberNotFound | ApiError

text \<open>A value read out of the parsed roster; \<open>None\<close> is \<open>undefined\<close>.\<close>

fun truthy :: "json option \<Rightarrow> bool" where
  "truthy None = False"
| "truthy (Some JNull) = False"
| "truthy (Some (JBool b)) = b"
| "truthy (Some (JNum x)) = (x \<noteq> 0)"
| "truthy (Some (JStr s)) = (s \<noteq> [])"
| "truthy (Some (JArr xs)) = True"
| "truthy (Some (JObj kvs)) = True"

text \<open>
  \<open>v.k\<close> for one of the keys \<open>email\<close>, \<open>name\<close>, \<open>program\<close>, \<open>batch\<close>: reading a
  property of \<open>null\<close> throws, an object gives its member (the last one of that name in
  the text), any other value gives \<open>undefined\<close>.
\<close>

fun get_prop :: "json \<Rightarrow> jsstring \<Rightarrow> error + json option" where
  "get_prop JNull k = Inl TypeError"
| "get_prop (JObj kvs) k = Inr (map_of (rev kvs) k)"
| "get_prop v k = Inr None"

text \<open>\<open>Array.prototype.find\<close> with a callback that may throw.\<close>

fun array_find :: "('a \<Rightarrow> error + bool) \<Rightarrow> 'a list \<Rightarrow> error + 'a option" where
  "array_find p [] = Inr None"
| "array_find p (x # xs) =
     (case p x of Inl e \<Rightarrow> Inl e
      | Inr True \<Rightarrow> Inr (Some x)
      | Inr False \<Rightarrow> array_find p xs)"

record learner_data =
  ld_name :: "json option"
  ld_email :: "json option"
  ld_program :: "json option"
  ld_batch :: "json option"

record verification =
  isVerified :: bool
  learnerData :: "learner_data option"

section \<open>Sessions, messages and the external interfaces\<close>

datatype question_key = NAME | EMAIL | PHONE

text \<open>The fixed texts the bot sends; the confirmation carries the role name and, when
  the session has a channel, the guild and channel of its link button.\<close>

datatype reply =
    QuestionText question_key
  | ErrorMessage question_key
  | Processing
  | Rejection
  | Confirmation jsstring "(jsstring \<times> jsstring) option"
  | SaveFailed
  | HandlerError

record sheetData =
  sd_name :: "jsstring option"
  sd_email :: "jsstring option"
  sd_phone :: "jsstring option"
  discordUsername :: jsstring
  channel :: jsstring

text \<open>
  The calls that leave the process: a message into the DM channel of a user,
  \<open>appendToSheet\<close>, \<open>member.roles.add\<close> (member, role), \<open>permissionOverwrites.create\<close>
  (channel, member) and the welcome posted into the course channel (channel, member).
\<close>

datatype call =
    SendDM jsstring reply
  | AppendToSheet sheetData
  | RolesAdd jsstring jsstring
  | PermissionOverwrite jsstring jsstring
  | ChannelSend jsstring jsstring

record role =
  role_id :: jsstring
  role_name :: jsstring

record member =
  member_id :: jsstring
  member_tag :: jsstring

record guild =
  roles_cache :: "role list"
  channels_cache :: "jsstring \<rightharpoonup> jsstring"
  members_fetch :: "jsstring \<Rightarrow> error + member option"

text \<open>
  Everything outside the process that a handler run depends on: the lower-casing of
  the platform, the roster file, the configured role name, the client's guild cache and,
  for every outgoing call, whether it succeeds or throws.
\<close>

record env =
  toLowerCase :: "jsstring \<Rightarrow> jsstring"
  paidLearnersFile :: roster_file
  LEARNER_ROLE_NAME :: "jsstring option"
  guilds_cache :: "jsstring \<rightharpoonup> guild"
  succeeds :: "call \<Rightarrow> bool"

record session =
  userId :: jsstring
  username :: jsstring
  guildId :: jsstring
  channelName :: jsstring
  channelId :: "jsstring option"
  currentStep :: nat
  data :: "jsstring \<rightharpoonup> jsstring"
  started :: bool
  startedAt :: nat

record message =
  author_id :: jsstring
  author_bot :: bool
  in_guild :: bool
  content :: jsstring

text \<open>The session registry and the calls made so far, in order.\<close>

record world =
  sessions :: "jsstring \<rightharpoonup> session"
  outbox :: "call list"

type_synonym 'a action = "world \<Rightarrow> (error + 'a) \<times> world"

definition returnE :: "'a \<Rightarrow> 'a action" where
  "returnE x = (\<lambda>w. (Inr x, w))"

definition throwE :: "error \<Rightarrow> 'a action" where
  "throwE e = (\<lambda>w. (Inl e, w))"

definition bindE :: "'a action \<Rightarrow> ('a \<Rightarrow> 'b action) \<Rightarrow> 'b action" where
  "bindE m f = (\<lambda>w. case m w of (Inl e, w') \<Rightarrow> (Inl e, w') | (Inr x, w') \<Rightarrow> f x w')"

definition thenE :: "unit action \<Rightarrow> 'b action \<Rightarrow> 'b action" where
  "thenE m n = bindE m (\<lambda>_. n)"

definition tryCatch :: "'a action \<Rightarrow> (error \<Rightarrow> 'a action) \<Rightarrow> 'a action" where
  "tryCatch m h = (\<lambda>w. case m w of (Inl e, w') \<Rightarrow> h e w' | (Inr x, w') \<Rightarrow> (Inr x, w'))"

text \<open>\<open>.catch(() => {})\<close> and a \<open>catch\<close> block that only logs.\<close>

definition swallow :: "unit action \<Rightarrow> unit action" where
  "swallow m = tryCatch m (\<lambda>e. returnE ())"

definition perform :: "env \<Rightarrow> call \<Rightarrow> unit action" where
  "perform en c =
     (\<lambda>w. (if succeeds en c then Inr () else Inl ApiError, w\<lparr>outbox := outbox w @ [c]\<rparr>))"

definition sessions_delete :: "jsstring \<Rightarrow> unit action" where
  "sessions_delete uid = (\<lambda>w. (Inr (), w\<lparr>sessions := (sessions w)(uid := None)\<rparr>))"

text \<open>
  \<open>verifyPaidLearner\<close>: the body of the \<open>try\<close> block first, every throw a value.
  The argument is \<open>session.data.email\<close>, a string or \<open>undefined\<close>.
\<close>

definition learner_matches :: "env \<Rightarrow> jsstring \<Rightarrow> json \<Rightarrow> error + bool" where
  "learner_matches en normalizedEmail learner =
     (case get_prop learner (js ''email'') of
        Inl e \<Rightarrow> Inl e
      | Inr v \<Rightarrow>
          if \<not> truthy v then Inr False
          else (case v of
                  Some (JStr s) \<Rightarrow> Inr (trim (toLowerCase en s) = normalizedEmail)
                | _ \<Rightarrow> Inl TypeError))"

definition verifyPaidLearner_try :: "env \<Rightarrow> jsstring option \<Rightarrow> error + verification" where
  "verifyPaidLearner_try en email =
     (case paidLearnersFile en of
        NotFound \<Rightarrow> Inr \<lparr>isVerified = False, learnerData = None\<rparr>
      | Unreadable \<Rightarrow> Inl IOError
      | Malformed \<Rightarrow> Inl SyntaxError
      | Parsed paidLearners \<Rightarrow>
          (case email of
             None \<Rightarrow> Inl TypeError
           | Some e \<Rightarrow>
               (let normalizedEmail = trim (toLowerCase en e)
                in case paidLearners of
                     JArr ls \<Rightarrow>
                       (case array_find (learner_matches en normalizedEmail) ls of
                          Inl err \<Rightarrow> Inl err
                        | Inr None \<Rightarrow> Inr \<lparr>isVerified = False, learnerData = None\<rparr>
                        | Inr (Some learner) \<Rightarrow>
                            (case (get_prop learner (js ''name''), get_prop learner (js ''email''),
                                   get_prop learner (js ''program''), get_prop learner (js ''batch'')) of
                               (Inr n, Inr m, Inr p, Inr b) \<Rightarrow>
                                 Inr \<lparr>isVerified = True,
                                      learnerData = Some \<lparr>ld_name = n, ld_email = m,
                                                          ld_program = p, ld_batch = b\<rparr>\<rparr>
                             | _ \<Rightarrow> Inl TypeError))
                   | _ \<Rightarrow> Inl TypeError)))"

definition verifyPaidLearner :: "env \<Rightarrow> jsstring option \<Rightarrow> verification" where
  "verifyPaidLearner en email =
     (case verifyPaidLearner_try en email of
        Inl error \<Rightarrow> \<lparr>isVerified = False, learnerData = None\<rparr>
      | Inr result \<Rightarrow> result)"

section \<open>Onboarding handler\<close>

record question_spec =
  key :: jsstring
  question :: reply
  validator :: "jsstring \<Rightarrow> bool"
  errorMessage :: reply

fun QUESTIONS :: "question_key \<Rightarrow> question_spec" where
  "QUESTIONS NAME =
     \<lparr>key = js ''name'', question = QuestionText NAME, validator = isValidName,
      errorMessage = ErrorMessage NAME\<rparr>"
| "QUESTIONS EMAIL =
     \<lparr>key = js ''email'', question = QuestionText EMAIL, validator = isValidEmail,
      errorMessage = ErrorMessage EMAIL\<rparr>"
| "QUESTIONS PHONE =
     \<lparr>key = js ''phone'', question = QuestionText PHONE, validator = isValidPhone,
      errorMessage = ErrorMessage PHONE\<rparr>"

definition QUESTION_ORDER :: "question_key list" where
  "QUESTION_ORDER = [NAME, EMAIL, PHONE]"

text \<open>\<open>process.env.LEARNER_ROLE_NAME || 'Learner'\<close>\<close>

definition roleName :: "env \<Rightarrow> jsstring" where
  "roleName en =
     (case LEARNER_ROLE_NAME en of
        None \<Rightarrow> js ''Learner''
      | Some n \<Rightarrow> if n = [] then js ''Learner'' else n)"

text \<open>
  \<open>if (session.channelId)\<close> holds when the id is neither \<open>null\<close> nor the empty string.
\<close>

definition grant_channel :: "env \<Rightarrow> guild \<Rightarrow> member \<Rightarrow> session \<Rightarrow> unit action" where
  "grant_channel en g m s =
     (case channelId s of
        None \<Rightarrow> returnE ()
      | Some cid \<Rightarrow>
          if cid = [] then returnE ()
          else swallow
            (case channels_cache g cid of
               None \<Rightarrow> returnE ()
             | Some ch \<Rightarrow>
                 thenE (perform en (PermissionOverwrite cid (member_id m)))
                       (swallow (perform en (ChannelSend cid (member_id m))))))"

definition send_confirmation :: "env \<Rightarrow> message \<Rightarrow> session \<Rightarrow> unit action" where
  "send_confirmation en msg s =
     (case channelId s of
        None \<Rightarrow> perform en (SendDM (author_id msg) (Confirmation (roleName en) None))
      | Some cid \<Rightarrow>
          if cid = [] then perform en (SendDM (author_id msg) (Confirmation (roleName en) None))
          else perform en
                 (SendDM (author_id msg) (Confirmation (roleName en) (Some (guildId s, cid)))))"

text \<open>The \<open>try\<close> block of \<open>finalizeOnboarding\<close>.\<close>

definition finalize_try :: "env \<Rightarrow> message \<Rightarrow> session \<Rightarrow> unit action" where
  "finalize_try en msg s =
     thenE (perform en (SendDM (author_id msg) Processing))
       (let verificationResult = verifyPaidLearner en (data s (js ''email''))
        in if \<not> isVerified verificationResult then
             thenE (perform en (SendDM (author_id msg) Rejection))
                   (sessions_delete (userId s))
           else
             thenE (perform en (AppendToSheet
                      \<lparr>sd_name = data s (js ''name''), sd_email = data s (js ''email''),
                       sd_phone = data s (js ''phone''), discordUsername = username s,
                       channel = channelName s\<rparr>))
            (bindE (case guilds_cache en (guildId s) of
                      None \<Rightarrow> throwE GuildNotFound
                    | Some g \<Rightarrow> returnE g) (\<lambda>g.
             bindE (case members_fetch g (userId s) of
                      Inl e \<Rightarrow> throwE e
                    | Inr None \<Rightarrow> throwE MemberNotFound
                    | Inr (Some m) \<Rightarrow> returnE m) (\<lambda>m.
             thenE (case find (\<lambda>r. role_name r = roleName en) (roles_cache g) of
                      Some r \<Rightarrow> perform en (RolesAdd (member_id m) (role_id r))
                    | None \<Rightarrow> returnE ())
            (thenE (grant_channel en g m s)
            (thenE (send_confirmation en msg s)
                   (sessions_delete (userId s))))))))"

text \<open>
  The \<open>catch\<close> block tells the user, ignoring a failure to do so, and leaves the registry
  alone. Nothing leaves \<open>finalizeOnboarding\<close> as an exception.
\<close>

definition finalizeOnboarding :: "env \<Rightarrow> message \<Rightarrow> session \<Rightarrow> unit action" where
  "finalizeOnboarding en msg s =
     tryCatch (finalize_try en msg s)
       (\<lambda>error. swallow (perform en (SendDM (author_id msg) SaveFailed)))"

text \<open>
  \<open>handleResponse\<close>. The session is the object the registry holds for the author of the
  message, so what the handler assigns to its fields is seen there.
  \<open>QUESTION_ORDER[session.currentStep]\<close> is \<open>undefined\<close> past the last question, and
  reading \<open>validator\<close> of the question then throws.
\<close>

definition handleResponse :: "env \<Rightarrow> message \<Rightarrow> session \<Rightarrow> unit action" where
  "handleResponse en msg s =
     (if currentStep s < length QUESTION_ORDER then
        (let currentQuestion = QUESTIONS (QUESTION_ORDER ! currentStep s);
             userInput = sanitizeInput (content msg)
         in if \<not> validator currentQuestion userInput then
              perform en (SendDM (author_id msg) (errorMessage currentQuestion))
            else
              (let s' = s\<lparr>data := (data s)(key currentQuestion \<mapsto> userInput),
                          currentStep := currentStep s + 1\<rparr>
               in thenE (\<lambda>w. (Inr (), w\<lparr>sessions := (sessions w)(author_id msg \<mapsto> s')\<rparr>))
                    (if currentStep s' < length QUESTION_ORDER then
                       perform en
                         (SendDM (author_id msg) (question (QUESTIONS (QUESTION_ORDER ! currentStep s'))))
                     else finalizeOnboarding en msg s')))
      else throwE TypeError)"

section \<open>Event router\<close>

text \<open>The \<open>messageCreate\<close> handler.\<close>

definition messageCreate :: "env \<Rightarrow> message \<Rightarrow> world \<Rightarrow> world" where
  "messageCreate en msg w =
     (if author_bot msg \<or> in_guild msg then w
      else case sessions w (author_id msg) of
             None \<Rightarrow> w
           | Some s \<Rightarrow>
               if \<not> started s then w
               else snd (tryCatch (handleResponse en msg s)
                          (\<lambda>error. swallow (perform en (SendDM (author_id msg) HandlerError))) w))"

section \<open>Invite tracker\<close>

record invite =
  code :: jsstring
  uses :: nat
  inv_channel :: "(jsstring \<times> jsstring) option"
  inviter :: "jsstring option"

text \<open>\<open>new Collection(pairs)\<close>: a later entry for a key replaces an earlier one.\<close>

definition collection_of :: "('k \<times> 'v) list \<Rightarrow> ('k \<rightharpoonup> 'v)" where
  "collection_of pairs = fold (\<lambda>(k, v) m. m(k \<mapsto> v)) pairs Map.empty"

type_synonym invite_cache = "jsstring \<rightharpoonup> (jsstring \<rightharpoonup> nat)"

text \<open>
  Both functions take the outcome of \<open>guild.invites.fetch()\<close>, the invites in the order
  the collection iterates them or the error thrown, and the id of the guild.
\<close>

definition cacheInvites :: "error + invite list \<Rightarrow> jsstring \<Rightarrow> invite_cache \<Rightarrow> invite_cache" where
  "cacheInvites fetched gid invites =
     (case fetched of
        Inl error \<Rightarrow> invites
      | Inr fetchedInvites \<Rightarrow>
          invites(gid \<mapsto> collection_of (map (\<lambda>invite. (code invite, uses invite)) fetchedInvites)))"

definition detectUsedInvite ::
  "error + invite list \<Rightarrow> jsstring \<Rightarrow> invite_cache \<Rightarrow> invite option \<times> invite_cache" where
  "detectUsedInvite fetched gid invites =
     (case fetched of
        Inl error \<Rightarrow> (None, invites)
      | Inr newInvites \<Rightarrow>
          (case invites gid of
             None \<Rightarrow> (None, invites)
           | Some oldInvites \<Rightarrow>
               (let usedInvite =
                      find (\<lambda>inv. case oldInvites (code inv) of
                                    None \<Rightarrow> False
                                  | Some oldUses \<Rightarrow> uses inv > oldUses) newInvites
                in (usedInvite,
                    invites(gid \<mapsto>
                      collection_of (map (\<lambda>invite. (code invite, uses invite)) newInvites))))))"

section \<open>Sample data\<close>

text \<open>What \<open>toLowerCase\<close> does to the letters A to Z; other code units are kept.\<close>

definition lowerASCII :: "jsstring \<Rightarrow> jsstring" where
  "lowerASCII s = map (\<lambda>c. if 0x41 \<le> c \<and> c \<le> 0x5A then c + 0x20 else c) s"

definition jane :: session where
  "jane =
     \<lparr>userId = js ''42'', username = js ''jane#0001'', guildId = js ''7'',
      channelName = js ''course'', channelId = Some (js ''99''), currentStep = 3,
      data = [js ''name'' \<mapsto> js ''Jane Doe'', js ''email'' \<mapsto> js ''jane@scaler.com'',
              js ''phone'' \<mapsto> js ''9998887777''],
      started = True, startedAt = 0\<rparr>"

definition last_answer :: message where
  "last_answer =
     \<lparr>author_id = js ''42'', author_bot = False, in_guild = False, content = js ''9998887777''\<rparr>"

definition campus :: guild where
  "campus =
     \<lparr>roles_cache = [\<lparr>role_id = js ''5'', role_name = js ''Learner''\<rparr>],
      channels_cache = [js ''99'' \<mapsto> js ''course''],
      members_fetch = (\<lambda>u. Inr (Some \<lparr>member_id = u, member_tag = js ''jane#0001''\<rparr>))\<rparr>"

definition roster :: json where
  "roster =
     JArr [JObj [(js ''name'', JStr (js ''Jane Doe'')), (js ''email'', JStr (js ''Jane@Scaler.com '')),
                 (js ''program'', JStr (js ''DSML'')), (js ''batch'', JNum 7)]]"

definition other_roster :: json where
  "other_roster =
     JArr [JObj [(js ''name'', JStr (js ''Bob Roe'')), (js ''email'', JStr (js ''bob@scaler.com'')),
                 (js ''program'', JStr (js ''DSML'')), (js ''batch'', JNum 7)]]"

definition platform :: "roster_file \<Rightarrow> (call \<Rightarrow> bool) \<Rightarrow> env" where
  "platform file ok =
     \<lparr>toLowerCase = lowerASCII, paidLearnersFile = file, LEARNER_ROLE_NAME = None,
      guilds_cache = [js ''7'' \<mapsto> campus], succeeds = ok\<rparr>"

definition registry :: world where
  "registry = \<lparr>sessions = [js ''42'' \<mapsto> jane], outbox = []\<rparr>"

definition jane_row :: sheetData where
  "jane_row =
     \<lparr>sd_name = Some (js ''Jane Doe''), sd_email = Some (js ''jane@scaler.com''),
      sd_phone = Some (js ''9998887777''), discordUsername = js ''jane#0001'',
      channel = js ''course''\<rparr>"

text \<open>Every call succeeds; the spreadsheet is down; the rejection cannot be delivered.\<close>

definition all_up :: "call \<Rightarrow> bool" where
  "all_up c = True"

definition sheet_down :: "call \<Rightarrow> bool" where
  "sheet_down c = (case c of AppendToSheet r \<Rightarrow> False | _ \<Rightarrow> True)"

definition rejection_undelivered :: "call \<Rightarrow> bool" where
  "rejection_undelivered c = (c \<noteq> SendDM (js ''42'') Rejection)"

definition sample_invite :: "string \<Rightarrow> nat \<Rightarrow> invite" where
  "sample_invite c n = \<lparr>code = js c, uses = n, inv_channel = None, inviter = None\<rparr>"

definition cached_counts :: "jsstring \<rightharpoonup> nat" where
  "cached_counts = [js ''A'' \<mapsto> 5, js ''B'' \<mapsto> 2]"

section \<open>The shape of an accepted address, in the words of the specification\<close>

text \<open>
  A label of the domain: not empty, at most 63 code units, each alphanumeric or a hyphen,
  the first and the last alphanumeric.
\<close>

definition isLabel :: "jsstring \<Rightarrow> bool" where
  "isLabel l \<longleftrightarrow>
     l \<noteq> [] \<and> length l \<le> 63 \<and> in_class alnumClass (hd l) \<and> in_class alnumClass (last l) \<and>
     list_all (\<lambda>c. in_class alnumClass c \<or> c = of_char CHR ''-'') l"

section \<open>Sanitizer and phone validator\<close>

lemma sanitizeInput_not_in_class: "c \<in> set (sanitizeInput s) \<Longrightarrow> \<not> lineBreakOrTab c"
  unfolding sanitizeInput_def substring0_def replace_class_def
  by (auto dest!: in_set_takeD simp: js_def lineBreakOrTab_def in_class_def split: if_splits)

text \<open>
  C8. For every string, the sanitized string holds no carriage return (U+000D), no line
  feed (U+000A) and no tab (U+0009), and has at most 500 code units.
\<close>

theorem sanitizeInput_clean:
  "0x0D \<notin> set (sanitizeInput s) \<and> 0x0A \<notin> set (sanitizeInput s) \<and>
   0x09 \<notin> set (sanitizeInput s) \<and> length (sanitizeInput s) \<le> 500"
proof -
  have "lineBreakOrTab 0x0D" "lineBreakOrTab 0x0A" "lineBreakOrTab 0x09"
    by (simp_all add: lineBreakOrTab_def in_class_def)
  moreover have "length (sanitizeInput s) \<le> 500"
    by (simp add: sanitizeInput_def substring0_def)
  ultimately show ?thesis
    using sanitizeInput_not_in_class by blast
qed

lemma replace_nonDigit: "replace_class nonDigit [] s = filter (\<lambda>c. \<not> nonDigit c) s"
  by (induction s) (auto simp: replace_class_def)

lemma nonDigit_iff: "\<not> nonDigit c \<longleftrightarrow> c \<in> {0x30 .. 0x39}"
  by (simp add: nonDigit_def in_class_def)

text \<open>
  C9. A phone number is valid exactly when the number of positions of the string that
  hold an ASCII digit (U+0030 to U+0039) is between 10 and 15; the string
  \<open>+1 (234) 567-8900\<close> is valid and \<open>12345\<close> is not.
\<close>

theorem isValidPhone_digit_count:
  "(isValidPhone s \<longleftrightarrow>
      10 \<le> card {i. i < length s \<and> s ! i \<in> {0x30 .. 0x39}} \<and>
      card {i. i < length s \<and> s ! i \<in> {0x30 .. 0x39}} \<le> 15) \<and>
   isValidPhone (js ''+1 (234) 567-8900'') \<and> \<not> isValidPhone (js ''12345'')"
proof -
  have "isValidPhone s \<longleftrightarrow>
      10 \<le> card {i. i < length s \<and> s ! i \<in> {0x30 .. 0x39}} \<and>
      card {i. i < length s \<and> s ! i \<in> {0x30 .. 0x39}} \<le> 15"
    unfolding isValidPhone_def Let_def replace_nonDigit length_filter_conv_card nonDigit_iff
    by simp
  moreover have "isValidPhone (js ''+1 (234) 567-8900'')"
    by (simp add: isValidPhone_def js_def replace_class_def nonDigit_def in_class_def)
  moreover have "\<not> isValidPhone (js ''12345'')"
    by (simp add: isValidPhone_def js_def replace_class_def nonDigit_def in_class_def)
  ultimately show ?thesis by blast
qed

section \<open>Email validator\<close>

lemma rx_match_Cls_iff: "rx_match (Cls items) s \<longleftrightarrow> (\<exists>c. s = [c] \<and> in_class items c)"
  by (auto simp: rx_match.simps(2) split: list.splits)

lemma rx_match_Seq_iff:
  "rx_match (Seq a b) s \<longleftrightarrow> (\<exists>u v. s = u @ v \<and> rx_match a u \<and> rx_match b v)"
proof
  assume "rx_match (Seq a b) s"
  then obtain i where "rx_match a (take i s)" "rx_match b (drop i s)"
    unfolding rx_match.simps(3) list_ex_iff by blast
  then show "\<exists>u v. s = u @ v \<and> rx_match a u \<and> rx_match b v"
    by (metis append_take_drop_id)
next
  assume "\<exists>u v. s = u @ v \<and> rx_match a u \<and> rx_match b v"
  then obtain u v where "s = u @ v" "rx_match a u" "rx_match b v" by blast
  then have "length u \<in> set [0..<Suc (length s)] \<and> rx_match a (take (length u) s) \<and>
      rx_match b (drop (length u) s)"
    by simp
  then show "rx_match (Seq a b) s"
    unfolding rx_match.simps(3) list_ex_iff by blast
qed

lemma rx_match_Star_iff:
  "rx_match (Star a) s \<longleftrightarrow>
     s = [] \<or> (\<exists>u v. s = u @ v \<and> u \<noteq> [] \<and> rx_match a u \<and> rx_match (Star a) v)"
proof -
  have unfold: "rx_match (Star a) s \<longleftrightarrow>
      s = [] \<or> (\<exists>i \<in> set [1..<Suc (length s)]. rx_match a (take i s) \<and> rx_match (Star a) (drop i s))"
    by (subst rx_match.simps(5)) (simp only: list_ex_iff)
  show ?thesis
  proof
    assume "rx_match (Star a) s"
    with unfold consider "s = []"
      | i where "i \<in> set [1..<Suc (length s)]" "rx_match a (take i s)" "rx_match (Star a) (drop i s)"
      by blast
    then show "s = [] \<or> (\<exists>u v. s = u @ v \<and> u \<noteq> [] \<and> rx_match a u \<and> rx_match (Star a) v)"
    proof cases
      case 1
      then show ?thesis by simp
    next
      case 2
      then have "s = take i s @ drop i s \<and> take i s \<noteq> []" by auto
      with 2 show ?thesis by blast
    qed
  next
    assume "s = [] \<or> (\<exists>u v. s = u @ v \<and> u \<noteq> [] \<and> rx_match a u \<and> rx_match (Star a) v)"
    then consider "s = []"
      | u v where "s = u @ v" "u \<noteq> []" "rx_match a u" "rx_match (Star a) v"
      by blast
    then show "rx_match (Star a) s"
    proof cases
      case 1
      with unfold show ?thesis by simp
    next
      case 2
      moreover from 2 have "1 \<le> length u" "length u \<le> length s"
        by (cases u; simp)+
      ultimately have "length u \<in> set [1..<Suc (length s)] \<and> rx_match a (take (length u) s) \<and>
          rx_match (Star a) (drop (length u) s)"
        by simp
      with unfold show ?thesis by blast
    qed
  qed
qed

lemma rx_match_Star_Nil: "rx_match (Star a) []"
  using rx_match_Star_iff[of a "[]"] by blast

lemma rx_match_Cls_Seq_iff:
  "rx_match (Seq (Cls items) b) s \<longleftrightarrow> (\<exists>c t. s = c # t \<and> in_class items c \<and> rx_match b t)"
proof
  assume "rx_match (Seq (Cls items) b) s"
  then obtain u v where "s = u @ v" "rx_match (Cls items) u" "rx_match b v"
    unfolding rx_match_Seq_iff by blast
  then show "\<exists>c t. s = c # t \<and> in_class items c \<and> rx_match b t"
    unfolding rx_match_Cls_iff by auto
next
  assume "\<exists>c t. s = c # t \<and> in_class items c \<and> rx_match b t"
  then obtain c t where "s = [c] @ t" "rx_match (Cls items) [c]" "rx_match b t"
    unfolding rx_match_Cls_iff by auto
  then show "rx_match (Seq (Cls items) b) s"
    unfolding rx_match_Seq_iff by blast
qed

lemma rx_match_Seq_Cls_iff:
  "rx_match (Seq a (Cls items)) s \<longleftrightarrow> (\<exists>m d. s = m @ [d] \<and> rx_match a m \<and> in_class items d)"
  unfolding rx_match_Seq_iff rx_match_Cls_iff by blast

lemma rx_match_Star_Cls: "rx_match (Star (Cls items)) s \<longleftrightarrow> list_all (in_class items) s"
proof (induction s)
  case Nil
  show ?case by (simp add: rx_match_Star_Nil)
next
  case (Cons c s)
  show ?case
  proof
    assume "rx_match (Star (Cls items)) (c # s)"
    then obtain u v where "c # s = u @ v" "rx_match (Cls items) u" "rx_match (Star (Cls items)) v"
      using rx_match_Star_iff[of "Cls items" "c # s"] by blast
    then have "in_class items c \<and> rx_match (Star (Cls items)) s"
      unfolding rx_match_Cls_iff by auto
    with Cons show "list_all (in_class items) (c # s)" by simp
  next
    assume "list_all (in_class items) (c # s)"
    with Cons have "c # s = [c] @ s" "[c] \<noteq> []" "rx_match (Cls items) [c]"
      "rx_match (Star (Cls items)) s"
      unfolding rx_match_Cls_iff by simp_all
    then show "rx_match (Star (Cls items)) (c # s)"
      using rx_match_Star_iff[of "Cls items" "c # s"] by blast
  qed
qed

lemma rx_match_Plus_Cls:
  "rx_match (Plus (Cls items)) s \<longleftrightarrow> s \<noteq> [] \<and> list_all (in_class items) s"
  unfolding Plus_def rx_match_Cls_Seq_iff rx_match_Star_Cls
  by (cases s) auto

lemma rx_match_UpTo_Cls:
  "rx_match (UpTo n (Cls items)) s \<longleftrightarrow> length s \<le> n \<and> list_all (in_class items) s"
proof (induction n arbitrary: s)
  case 0
  show ?case by (auto simp: rx_match.simps(1))
next
  case (Suc n)
  show ?case
    unfolding UpTo.simps rx_match.simps(4) rx_match_Cls_Seq_iff Suc
    by (cases s) auto
qed

lemma alnumHyphen_iff:
  "in_class alnumHyphenClass c \<longleftrightarrow> in_class alnumClass c \<or> c = of_char CHR ''-''"
  by (auto simp: in_class_def alnumHyphenClass_def alnumClass_def)

lemma rx_match_labelRegex_aux:
  "rx_match labelRegex l \<longleftrightarrow>
     (\<exists>c r. l = c # r \<and> in_class alnumClass c \<and>
        (r = [] \<or> (\<exists>m d. r = m @ [d] \<and> length m \<le> 61 \<and>
            list_all (in_class alnumHyphenClass) m \<and> in_class alnumClass d)))"
  unfolding labelRegex_def rx_match_Cls_Seq_iff rx_match.simps(4) rx_match_Seq_Cls_iff
    rx_match_UpTo_Cls
  by blast

lemma rx_match_labelRegex: "rx_match labelRegex l \<longleftrightarrow> isLabel l"
proof
  assume "rx_match labelRegex l"
  then obtain c r where l: "l = c # r" and c: "in_class alnumClass c"
    and r: "r = [] \<or> (\<exists>m d. r = m @ [d] \<and> length m \<le> 61 \<and>
        list_all (in_class alnumHyphenClass) m \<and> in_class alnumClass d)"
    unfolding rx_match_labelRegex_aux by blast
  from r show "isLabel l"
  proof
    assume "r = []"
    with l c show ?thesis by (simp add: isLabel_def)
  next
    assume "\<exists>m d. r = m @ [d] \<and> length m \<le> 61 \<and>
        list_all (in_class alnumHyphenClass) m \<and> in_class alnumClass d"
    then obtain m d where "r = m @ [d]" "length m \<le> 61"
      "list_all (in_class alnumHyphenClass) m" "in_class alnumClass d"
      by blast
    with l c show ?thesis by (auto simp: isLabel_def alnumHyphen_iff list_all_iff)
  qed
next
  assume a: "isLabel l"
  then obtain c r where l: "l = c # r" by (cases l) (auto simp: isLabel_def)
  show "rx_match labelRegex l"
  proof (cases r rule: rev_cases)
    case Nil
    with a l show ?thesis
      unfolding rx_match_labelRegex_aux by (simp add: isLabel_def)
  next
    case (snoc m d)
    with a l have "in_class alnumClass c" "length m \<le> 61"
      "list_all (in_class alnumHyphenClass) m" "in_class alnumClass d"
      by (auto simp: isLabel_def alnumHyphen_iff list_all_iff)
    with l snoc show ?thesis
      unfolding rx_match_labelRegex_aux by blast
  qed
qed

lemma rx_match_Star_concat:
  "rx_match (Star a) s \<longleftrightarrow> (\<exists>ws. s = concat ws \<and> (\<forall>w \<in> set ws. w \<noteq> [] \<and> rx_match a w))"
proof (induction "length s" arbitrary: s rule: less_induct)
  case less
  show ?case
  proof
    assume "rx_match (Star a) s"
    then consider "s = []" | u v where "s = u @ v" "u \<noteq> []" "rx_match a u" "rx_match (Star a) v"
      using rx_match_Star_iff[of a s] by blast
    then show "\<exists>ws. s = concat ws \<and> (\<forall>w \<in> set ws. w \<noteq> [] \<and> rx_match a w)"
    proof cases
      case 1
      then have "s = concat [] \<and> (\<forall>w \<in> set []. w \<noteq> [] \<and> rx_match a w)" by simp
      then show ?thesis by (rule exI)
    next
      case 2
      then have "length v < length s" by (cases u) auto
      with less 2 obtain ws where "v = concat ws" "\<forall>w \<in> set ws. w \<noteq> [] \<and> rx_match a w"
        by blast
      with 2 have "s = concat (u # ws) \<and> (\<forall>w \<in> set (u # ws). w \<noteq> [] \<and> rx_match a w)" by simp
      then show ?thesis by (rule exI)
    qed
  next
    assume "\<exists>ws. s = concat ws \<and> (\<forall>w \<in> set ws. w \<noteq> [] \<and> rx_match a w)"
    then obtain ws where ws: "s = concat ws" "\<forall>w \<in> set ws. w \<noteq> [] \<and> rx_match a w" by blast
    show "rx_match (Star a) s"
    proof (cases ws)
      case Nil
      with ws show ?thesis by (simp add: rx_match_Star_Nil)
    next
      case (Cons u us)
      with ws have u: "u \<noteq> []" "rx_match a u" and s: "s = u @ concat us"
        and us: "\<forall>w \<in> set us. w \<noteq> [] \<and> rx_match a w" by auto
      then have "length (concat us) < length s" by (cases u) auto
      with less us have "rx_match (Star a) (concat us)" by blast
      with u s show ?thesis using rx_match_Star_iff[of a s] by blast
    qed
  qed
qed

lemma dot_labels:
  "(\<forall>w \<in> set ws. w \<noteq> [] \<and> rx_match (Seq (Cls [Lit CHR ''.'']) labelRegex) w) \<longleftrightarrow>
   (\<exists>ls. ws = map ((#) (of_char CHR ''.'')) ls \<and> list_all isLabel ls)"
proof (induction ws)
  case Nil
  show ?case by simp
next
  case (Cons w ws)
  have w: "w \<noteq> [] \<and> rx_match (Seq (Cls [Lit CHR ''.'']) labelRegex) w \<longleftrightarrow>
      (\<exists>k. w = of_char CHR ''.'' # k \<and> isLabel k)"
    unfolding rx_match_Cls_Seq_iff rx_match_labelRegex by (auto simp: in_class_def)
  show ?case
  proof
    assume "\<forall>x \<in> set (w # ws). x \<noteq> [] \<and> rx_match (Seq (Cls [Lit CHR ''.'']) labelRegex) x"
    with Cons w obtain k ls where "w = of_char CHR ''.'' # k" "isLabel k"
      "ws = map ((#) (of_char CHR ''.'')) ls" "list_all isLabel ls"
      by auto
    then have "w # ws = map ((#) (of_char CHR ''.'')) (k # ls) \<and> list_all isLabel (k # ls)"
      by simp
    then show "\<exists>ls. w # ws = map ((#) (of_char CHR ''.'')) ls \<and> list_all isLabel ls"
      by (rule exI)
  next
    assume "\<exists>ls. w # ws = map ((#) (of_char CHR ''.'')) ls \<and> list_all isLabel ls"
    then obtain ls where ls: "w # ws = map ((#) (of_char CHR ''.'')) ls" "list_all isLabel ls"
      by (elim exE conjE)
    then obtain k ks where "ls = k # ks" by (cases ls) auto
    with ls have "w = of_char CHR ''.'' # k" "isLabel k" "ws = map ((#) (of_char CHR ''.'')) ks"
      "list_all isLabel ks"
      by auto
    with Cons w show "\<forall>x \<in> set (w # ws). x \<noteq> [] \<and> rx_match (Seq (Cls [Lit CHR ''.'']) labelRegex) x"
      by auto
  qed
qed

lemma rx_match_domain:
  "rx_match (Seq labelRegex (Star (Seq (Cls [Lit CHR ''.'']) labelRegex))) d \<longleftrightarrow>
   (\<exists>l ls. d = l @ concat (map ((#) (of_char CHR ''.'')) ls) \<and> isLabel l \<and> list_all isLabel ls)"
  unfolding rx_match_Seq_iff[of labelRegex] rx_match_labelRegex rx_match_Star_concat dot_labels
  by blast

lemma isValidEmail_iff:
  "isValidEmail e \<longleftrightarrow>
     (\<exists>local l ls.
        trim e = local @ of_char CHR ''@'' # l @ concat (map ((#) (of_char CHR ''.'')) ls) \<and>
        local \<noteq> [] \<and> list_all (in_class localClass) local \<and> isLabel l \<and> list_all isLabel ls)"
proof -
  have unfold: "isValidEmail e \<longleftrightarrow>
      (\<exists>local d. trim e = local @ d \<and> (local \<noteq> [] \<and> list_all (in_class localClass) local) \<and>
         (\<exists>c t. d = c # t \<and> in_class [Lit CHR ''@''] c \<and>
            (\<exists>l ls. t = l @ concat (map ((#) (of_char CHR ''.'')) ls) \<and> isLabel l \<and>
               list_all isLabel ls)))"
    unfolding isValidEmail_def emailRegex_def rx_match_Seq_iff[of "Plus (Cls localClass)"]
      rx_match_Plus_Cls rx_match_Cls_Seq_iff[of "[Lit CHR ''@'']"] rx_match_domain
    by (rule refl)
  have at: "in_class [Lit CHR ''@''] c \<longleftrightarrow> c = of_char CHR ''@''" for c
    by (simp add: in_class_def)
  show ?thesis
    unfolding unfold at by blast
qed

lemma user_at_example_com: "isValidEmail (js ''user@example.com'')"
proof -
  have "trim (js ''user@example.com'') =
      js ''user'' @ of_char CHR ''@'' # js ''example'' @
        concat (map ((#) (of_char CHR ''.'')) [js ''com''])"
    by (simp add: js_def trim_def isWhiteSpace_def)
  moreover have "list_all (in_class localClass) (js ''user'')"
    by (simp add: js_def in_class_def localClass_def)
  moreover have "isLabel (js ''example'')" "isLabel (js ''com'')"
    by (simp_all add: js_def isLabel_def in_class_def alnumClass_def)
  ultimately show ?thesis
    unfolding isValidEmail_iff
    by (intro exI[of _ "js ''user''"] exI[of _ "js ''example''"] exI[of _ "[js ''com'']"])
       (simp add: js_def)
qed

lemma a_at_b: "isValidEmail (js ''a@b'')"
proof -
  have "trim (js ''a@b'') =
      js ''a'' @ of_char CHR ''@'' # js ''b'' @ concat (map ((#) (of_char CHR ''.'')) [])"
    by (simp add: js_def trim_def isWhiteSpace_def)
  moreover have "list_all (in_class localClass) (js ''a'')"
    by (simp add: js_def in_class_def localClass_def)
  moreover have "isLabel (js ''b'')"
    by (simp add: js_def isLabel_def in_class_def alnumClass_def)
  ultimately show ?thesis
    unfolding isValidEmail_iff
    by (intro exI[of _ "js ''a''"] exI[of _ "js ''b''"] exI[of _ "[]"]) (simp add: js_def)
qed

lemma not_an_email: "\<not> isValidEmail (js ''not-an-email'')"
proof
  assume "isValidEmail (js ''not-an-email'')"
  then obtain local l ls where "trim (js ''not-an-email'') =
      local @ of_char CHR ''@'' # l @ concat (map ((#) (of_char CHR ''.'')) ls)"
    unfolding isValidEmail_iff by blast
  then have "of_char CHR ''@'' \<in> set (trim (js ''not-an-email''))" by simp
  then show False by (simp add: js_def trim_def isWhiteSpace_def)
qed

text \<open>
  C4, as stated, fails on its third example: the pattern ends in a starred group, so an
  address whose domain is one label with no dot is accepted.
\<close>

theorem isValidEmail_bare_domain_counterexample: "isValidEmail (js ''a@b'') = True"
  by code_simp

text \<open>
  C4, amended. \<open>isValidEmail\<close> accepts \<open>user@example.com\<close>, rejects \<open>not-an-email\<close> and
  accepts \<open>a@b\<close>. In general it accepts a string exactly when the trimmed string is a
  non-empty local part of the allowed symbols, then \<open>@\<close>, then one label or more,
  separated by dots, where a label has 1 to 63 characters, each alphanumeric or a hyphen,
  and begins and ends with an alphanumeric.
\<close>

theorem isValidEmail_examples_and_shape:
  "isValidEmail (js ''user@example.com'') \<and> \<not> isValidEmail (js ''not-an-email'') \<and>
   isValidEmail (js ''a@b'') \<and>
   (isValidEmail e \<longleftrightarrow>
     (\<exists>local l ls.
        trim e = local @ of_char CHR ''@'' # l @ concat (map ((#) (of_char CHR ''.'')) ls) \<and>
        local \<noteq> [] \<and> list_all (in_class localClass) local \<and> isLabel l \<and> list_all isLabel ls))"
  using user_at_example_com not_an_email a_at_b isValidEmail_iff[of e] by blast

section \<open>Finalizer\<close>

lemmas action_defs =
  returnE_def throwE_def bindE_def thenE_def tryCatch_def swallow_def perform_def
  sessions_delete_def

lemmas finalize_defs =
  finalizeOnboarding_def finalize_try_def grant_channel_def send_confirmation_def

lemmas sample_defs =
  jane_def last_answer_def campus_def roster_def other_roster_def platform_def registry_def
  jane_row_def all_up_def sheet_down_def rejection_undelivered_def

lemmas verify_defs =
  verifyPaidLearner_def verifyPaidLearner_try_def learner_matches_def js_def lowerASCII_def
  trim_def isWhiteSpace_def

lemma jane_verified:
  "isVerified (verifyPaidLearner (platform (Parsed roster) ok) (data jane (js ''email'')))"
  by (simp add: sample_defs verify_defs)

lemma jane_unknown:
  "\<not> isVerified (verifyPaidLearner (platform (Parsed other_roster) ok) (data jane (js ''email'')))"
  by (simp add: sample_defs verify_defs)

text \<open>The rejection branch, whatever the platform does with the two messages.\<close>

lemma rejection_run:
  assumes "\<not> isVerified (verifyPaidLearner en (data s (js ''email'')))"
  shows "snd (finalizeOnboarding en msg s w) =
    (if succeeds en (SendDM (author_id msg) Processing) then
       if succeeds en (SendDM (author_id msg) Rejection) then
         w\<lparr>outbox := outbox w @ [SendDM (author_id msg) Processing, SendDM (author_id msg) Rejection],
           sessions := (sessions w)(userId s := None)\<rparr>
       else
         w\<lparr>outbox := outbox w @ [SendDM (author_id msg) Processing, SendDM (author_id msg) Rejection,
                                  SendDM (author_id msg) SaveFailed]\<rparr>
     else
       w\<lparr>outbox := outbox w @ [SendDM (author_id msg) Processing, SendDM (author_id msg) SaveFailed]\<rparr>)"
  using assms by (simp add: finalizeOnboarding_def finalize_try_def action_defs)

text \<open>
  C1, as stated, fails when the platform refuses the rejection message: the send throws
  into the error handler of \<open>finalizeOnboarding\<close>, which keeps the session.
\<close>

theorem finalize_reject_keeps_session_counterexample:
  "\<not> isVerified (verifyPaidLearner (platform (Parsed other_roster) rejection_undelivered)
        (data jane (js ''email''))) \<and>
   sessions (snd (finalizeOnboarding (platform (Parsed other_roster) rejection_undelivered)
        last_answer jane registry)) (userId jane) = Some jane"
proof -
  have "sessions (snd (finalizeOnboarding (platform (Parsed other_roster) rejection_undelivered)
        last_answer jane registry)) (userId jane) = Some jane"
    by (simp add: rejection_run[OF jane_unknown])
       (simp add: sample_defs js_def)
  with jane_unknown show ?thesis by blast
qed

text \<open>
  C1, amended. If the email of the completed session is not found in the allow-list,
  the only calls \<open>finalizeOnboarding\<close> makes are direct messages to the user (the
  processing notice, the fixed rejection message, the failure notice): no row is appended
  and no role or channel access is granted. If the processing notice and the rejection
  message are both sent without error, these two are all it sends and the session is
  deleted from the registry.
\<close>

theorem finalize_rejection:
  assumes "\<not> isVerified (verifyPaidLearner en (data s (js ''email'')))"
  shows "\<exists>new. outbox (snd (finalizeOnboarding en msg s w)) = outbox w @ new \<and>
     set new \<subseteq> {SendDM (author_id msg) Processing, SendDM (author_id msg) Rejection,
                 SendDM (author_id msg) SaveFailed} \<and>
     (succeeds en (SendDM (author_id msg) Processing) \<and>
      succeeds en (SendDM (author_id msg) Rejection) \<longrightarrow>
        new = [SendDM (author_id msg) Processing, SendDM (author_id msg) Rejection] \<and>
        sessions (snd (finalizeOnboarding en msg s w)) = (sessions w)(userId s := None))"
  unfolding rejection_run[OF assms] by simp

theorem finalize_rejection_witness:
  "\<not> isVerified (verifyPaidLearner (platform (Parsed other_roster) all_up)
        (data jane (js ''email''))) \<and>
   outbox (snd (finalizeOnboarding (platform (Parsed other_roster) all_up) last_answer jane registry)) =
     [SendDM (js ''42'') Processing, SendDM (js ''42'') Rejection] \<and>
   sessions (snd (finalizeOnboarding (platform (Parsed other_roster) all_up) last_answer jane registry))
     (js ''42'') = None"
proof -
  have ok: "succeeds (platform (Parsed other_roster) all_up) c" for c
    by (simp add: platform_def all_up_def)
  have "outbox registry = []" "author_id last_answer = js ''42''" "userId jane = js ''42''"
    by (simp_all add: sample_defs)
  with ok jane_unknown[of all_up]
    finalize_rejection[OF jane_unknown[of all_up], of last_answer registry]
  show ?thesis by auto
qed

text \<open>
  Every run: the calls it adds to the log, and what a failed \<open>appendToSheet\<close> among them
  implies.
\<close>

lemma finalize_trace_shape:
  "\<exists>new. outbox (snd (finalizeOnboarding en msg s w)) = outbox w @ new \<and>
     (\<forall>row. AppendToSheet row \<in> set new \<longrightarrow> \<not> succeeds en (AppendToSheet row) \<longrightarrow>
        sessions (snd (finalizeOnboarding en msg s w)) = sessions w \<and>
        new = [SendDM (author_id msg) Processing, AppendToSheet row,
               SendDM (author_id msg) SaveFailed])"
  by (auto simp add: finalize_defs action_defs Let_def split: option.splits sum.splits)

text \<open>
  C2. If the \<open>appendToSheet\<close> call made by \<open>finalizeOnboarding\<close> fails, the registry is
  left as it was, so the session stays in it; the calls of the run are the processing
  notice, the one append and then the generic failure message to the user: the append is
  not tried again and nothing else is done.
\<close>

theorem finalize_append_failure:
  assumes "outbox (snd (finalizeOnboarding en msg s w)) = outbox w @ new"
    and "AppendToSheet row \<in> set new"
    and "\<not> succeeds en (AppendToSheet row)"
  shows "sessions (snd (finalizeOnboarding en msg s w)) = sessions w \<and>
     new = [SendDM (author_id msg) Processing, AppendToSheet row,
            SendDM (author_id msg) SaveFailed]"
  using assms finalize_trace_shape[of en msg s w] by auto

lemma finalize_sheet_down:
  "snd (finalizeOnboarding (platform (Parsed roster) sheet_down) last_answer jane registry) =
     registry\<lparr>outbox := [SendDM (js ''42'') Processing, AppendToSheet jane_row,
                          SendDM (js ''42'') SaveFailed]\<rparr>"
  using jane_verified[of sheet_down]
  by (simp add: finalizeOnboarding_def finalize_try_def action_defs)
     (simp add: sample_defs js_def)

theorem finalize_append_failure_witness:
  "outbox (snd (finalizeOnboarding (platform (Parsed roster) sheet_down) last_answer jane registry)) =
     outbox registry @ [SendDM (js ''42'') Processing, AppendToSheet jane_row,
                        SendDM (js ''42'') SaveFailed] \<and>
   AppendToSheet jane_row \<in> set [SendDM (js ''42'') Processing, AppendToSheet jane_row,
                        SendDM (js ''42'') SaveFailed] \<and>
   \<not> succeeds (platform (Parsed roster) sheet_down) (AppendToSheet jane_row) \<and>
   sessions (snd (finalizeOnboarding (platform (Parsed roster) sheet_down) last_answer jane registry))
     (js ''42'') = Some jane"
proof -
  have log: "outbox (snd (finalizeOnboarding (platform (Parsed roster) sheet_down) last_answer jane
      registry)) = outbox registry @ [SendDM (js ''42'') Processing, AppendToSheet jane_row,
                        SendDM (js ''42'') SaveFailed]"
    by (simp add: finalize_sheet_down) (simp add: registry_def)
  have down: "\<not> succeeds (platform (Parsed roster) sheet_down) (AppendToSheet jane_row)"
    by (simp add: platform_def sheet_down_def)
  have "sessions (snd (finalizeOnboarding (platform (Parsed roster) sheet_down) last_answer jane
      registry)) = sessions registry"
    using finalize_append_failure[OF log _ down] by simp
  then have "sessions (snd (finalizeOnboarding (platform (Parsed roster) sheet_down) last_answer
      jane registry)) (js ''42'') = Some jane"
    by (simp add: registry_def)
  with log down show ?thesis by simp
qed








section \<open>An unavailable roster\<close>

lemma verifyPaidLearner_shapes:
  "verifyPaidLearner en email = \<lparr>isVerified = False, learnerData = None\<rparr> \<or>
   (\<exists>d. verifyPaidLearner en email = \<lparr>isVerified = True, learnerData = Some d\<rparr>)"
  by (auto simp: verifyPaidLearner_def verifyPaidLearner_try_def Let_def
      split: roster_file.splits option.splits json.splits sum.splits prod.splits)

lemma verifyPaidLearner_unavailable:
  assumes "paidLearnersFile en = NotFound \<or> paidLearnersFile en = Unreadable \<or>
           paidLearnersFile en = Malformed"
  shows "verifyPaidLearner en email = \<lparr>isVerified = False, learnerData = None\<rparr>"
  using assms by (auto simp: verifyPaidLearner_def verifyPaidLearner_try_def)

text \<open>
  C10, as stated, fails in its last part: with a roster file that is not JSON and a
  rejection message that cannot be delivered, the send throws into the error handler of
  \<open>finalizeOnboarding\<close> and the session is kept.
\<close>

theorem unavailable_roster_keeps_session_counterexample:
  "paidLearnersFile (platform Malformed rejection_undelivered) = Malformed \<and>
   outbox (snd (finalizeOnboarding (platform Malformed rejection_undelivered) last_answer jane
     registry)) =
     [SendDM (js ''42'') Processing, SendDM (js ''42'') Rejection, SendDM (js ''42'') SaveFailed] \<and>
   sessions (snd (finalizeOnboarding (platform Malformed rejection_undelivered) last_answer jane
     registry)) (userId jane) = Some jane"
proof -
  have "\<not> isVerified (verifyPaidLearner (platform Malformed rejection_undelivered)
      (data jane (js ''email'')))"
    by (simp add: verifyPaidLearner_unavailable platform_def)
  then show ?thesis
    by (simp add: rejection_run) (simp add: sample_defs js_def)
qed

text \<open>
  C10, amended. \<open>verifyPaidLearner\<close> returns a result for every state of the roster file
  and every argument, a string or \<open>undefined\<close>: either not verified with no data, or
  verified with the learner's data; whatever is thrown inside it is caught. When the file
  is missing, unreadable or not JSON the result is not verified with no data, and
  \<open>finalizeOnboarding\<close> then goes the way of a rejection: it never calls
  \<open>appendToSheet\<close>, and once the processing notice is sent its next call is the rejection
  message. If both messages are sent without error, these two calls are all it does and
  the session is deleted; if one of the two sends throws, the last call is the generic
  failure notice and the session is retained.
\<close>

theorem verifyPaidLearner_total:
  "(verifyPaidLearner en email = \<lparr>isVerified = False, learnerData = None\<rparr> \<or>
    (\<exists>d. verifyPaidLearner en email = \<lparr>isVerified = True, learnerData = Some d\<rparr>)) \<and>
   (paidLearnersFile en = NotFound \<or> paidLearnersFile en = Unreadable \<or>
    paidLearnersFile en = Malformed \<longrightarrow>
      verifyPaidLearner en email = \<lparr>isVerified = False, learnerData = None\<rparr> \<and>
      (\<exists>new. outbox (snd (finalizeOnboarding en msg s w)) = outbox w @ new \<and>
         (\<forall>row. AppendToSheet row \<notin> set new) \<and>
         (succeeds en (SendDM (author_id msg) Processing) \<longrightarrow>
            take 2 new = [SendDM (author_id msg) Processing, SendDM (author_id msg) Rejection]) \<and>
         (succeeds en (SendDM (author_id msg) Processing) \<and>
          succeeds en (SendDM (author_id msg) Rejection) \<longrightarrow>
            new = [SendDM (author_id msg) Processing, SendDM (author_id msg) Rejection] \<and>
            sessions (snd (finalizeOnboarding en msg s w)) = (sessions w)(userId s := None)) \<and>
         (\<not> (succeeds en (SendDM (author_id msg) Processing) \<and>
              succeeds en (SendDM (author_id msg) Rejection)) \<longrightarrow>
            new \<noteq> [] \<and> last new = SendDM (author_id msg) SaveFailed \<and>
            sessions (snd (finalizeOnboarding en msg s w)) = sessions w)))"
proof -
  have "\<exists>new. outbox (snd (finalizeOnboarding en msg s w)) = outbox w @ new \<and>
         (\<forall>row. AppendToSheet row \<notin> set new) \<and>
         (succeeds en (SendDM (author_id msg) Processing) \<longrightarrow>
            take 2 new = [SendDM (author_id msg) Processing, SendDM (author_id msg) Rejection]) \<and>
         (succeeds en (SendDM (author_id msg) Processing) \<and>
          succeeds en (SendDM (author_id msg) Rejection) \<longrightarrow>
            new = [SendDM (author_id msg) Processing, SendDM (author_id msg) Rejection] \<and>
            sessions (snd (finalizeOnboarding en msg s w)) = (sessions w)(userId s := None)) \<and>
         (\<not> (succeeds en (SendDM (author_id msg) Processing) \<and>
              succeeds en (SendDM (author_id msg) Rejection)) \<longrightarrow>
            new \<noteq> [] \<and> last new = SendDM (author_id msg) SaveFailed \<and>
            sessions (snd (finalizeOnboarding en msg s w)) = sessions w)"
    if "paidLearnersFile en = NotFound \<or> paidLearnersFile en = Unreadable \<or>
        paidLearnersFile en = Malformed"
  proof -
    from that have "\<not> isVerified (verifyPaidLearner en (data s (js ''email'')))"
      by (simp add: verifyPaidLearner_unavailable)
    then show ?thesis
      by (simp add: rejection_run numeral_2_eq_2)
  qed
  with verifyPaidLearner_shapes[of en email] verifyPaidLearner_unavailable[of en email]
  show ?thesis by blast
qed

theorem verifyPaidLearner_total_witness:
  "paidLearnersFile (platform Malformed all_up) = Malformed \<and>
   verifyPaidLearner (platform Malformed all_up) (Some (js ''jane@scaler.com'')) =
     \<lparr>isVerified = False, learnerData = None\<rparr> \<and>
   succeeds (platform Malformed all_up) (SendDM (author_id last_answer) Processing) \<and>
   succeeds (platform Malformed all_up) (SendDM (author_id last_answer) Rejection) \<and>
   outbox (snd (finalizeOnboarding (platform Malformed all_up) last_answer jane registry)) =
     [SendDM (js ''42'') Processing, SendDM (js ''42'') Rejection] \<and>
   sessions (snd (finalizeOnboarding (platform Malformed all_up) last_answer jane registry))
     (js ''42'') = None"
proof -
  have "paidLearnersFile (platform Malformed all_up) = Malformed"
    and "succeeds (platform Malformed all_up) c" for c
    by (simp_all add: platform_def all_up_def)
  moreover have "outbox registry = []" "author_id last_answer = js ''42''"
    "userId jane = js ''42''"
    by (simp_all add: sample_defs)
  ultimately show ?thesis
    using verifyPaidLearner_total[of "platform Malformed all_up" "Some (js ''jane@scaler.com'')"
      last_answer jane registry]
    by auto
qed

section \<open>Direct messages\<close>

text \<open>
  C7. When a direct message arrives from an author who has no session in the registry, or
  whose session has not been started, the handler leaves the registry, with every
  session's question index and collected data, and the log of calls as they were: nothing
  changes and no reply is sent.
\<close>

theorem messageCreate_ignored:
  assumes "sessions w (author_id msg) = None \<or>
           (\<exists>s. sessions w (author_id msg) = Some s \<and> \<not> started s)"
  shows "messageCreate en msg w = w"
  using assms by (auto simp: messageCreate_def)

theorem messageCreate_ignored_witness:
  "sessions (registry\<lparr>sessions := Map.empty\<rparr>) (author_id last_answer) = None \<and>
   messageCreate (platform (Parsed roster) all_up) last_answer (registry\<lparr>sessions := Map.empty\<rparr>) =
     registry\<lparr>sessions := Map.empty\<rparr> \<and>
   sessions (registry\<lparr>sessions := [js ''42'' \<mapsto> jane\<lparr>started := False\<rparr>]\<rparr>) (author_id last_answer) =
     Some (jane\<lparr>started := False\<rparr>) \<and>
   \<not> started (jane\<lparr>started := False\<rparr>) \<and>
   messageCreate (platform (Parsed roster) all_up) last_answer
       (registry\<lparr>sessions := [js ''42'' \<mapsto> jane\<lparr>started := False\<rparr>]\<rparr>) =
     registry\<lparr>sessions := [js ''42'' \<mapsto> jane\<lparr>started := False\<rparr>]\<rparr>"
proof -
  have none: "sessions (registry\<lparr>sessions := Map.empty\<rparr>) (author_id last_answer) = None"
    by simp
  have waiting: "sessions (registry\<lparr>sessions := [js ''42'' \<mapsto> jane\<lparr>started := False\<rparr>]\<rparr>)
      (author_id last_answer) = Some (jane\<lparr>started := False\<rparr>)"
    by (simp add: last_answer_def)
  have "\<exists>s. sessions (registry\<lparr>sessions := [js ''42'' \<mapsto> jane\<lparr>started := False\<rparr>]\<rparr>)
      (author_id last_answer) = Some s \<and> \<not> started s"
    using waiting by simp
  then show ?thesis
    using none waiting
      messageCreate_ignored[of "registry\<lparr>sessions := Map.empty\<rparr>" last_answer
        "platform (Parsed roster) all_up"]
      messageCreate_ignored[of "registry\<lparr>sessions := [js ''42'' \<mapsto> jane\<lparr>started := False\<rparr>]\<rparr>"
        last_answer "platform (Parsed roster) all_up"]
    by simp
qed

section \<open>Invite detection and the cache\<close>

lemma fold_upd_map_of:
  "fold (\<lambda>(k, v) m. m(k \<mapsto> v)) ps m0 = m0 ++ map_of (rev ps)"
  by (induction ps arbitrary: m0) (auto simp: map_add_upd_left fun_eq_iff map_add_def split: option.splits)

lemma collection_of_map_of: "collection_of ps = map_of (rev ps)"
  by (simp add: collection_of_def fold_upd_map_of)

lemma dom_collection_of: "dom (collection_of ps) = fst ` set ps"
  by (simp add: collection_of_map_of dom_map_of_conv_image_fst)

lemma collection_of_distinct:
  "distinct (map fst ps) \<Longrightarrow> (k, v) \<in> set ps \<Longrightarrow> collection_of ps k = Some v"
  by (simp add: collection_of_map_of distinct_rev rev_map[symmetric])

text \<open>
  C5. With the cached counts A:5, B:2 for a guild and the fetched invites A:5, B:3,
  \<open>detectUsedInvite\<close> returns the invite B. With no cache entry for the guild it returns
  \<open>null\<close>, whether the fetch succeeds or throws. With a cache entry it returns the first
  fetched invite whose count exceeds the cached count of its code.
\<close>

theorem detectUsedInvite_first_increase:
  "fst (detectUsedInvite (Inr [sample_invite ''A'' 5, sample_invite ''B'' 3]) g
        (invites(g \<mapsto> cached_counts))) = Some (sample_invite ''B'' 3) \<and>
   (invites g = None \<longrightarrow> fst (detectUsedInvite fetched g invites) = None) \<and>
   (invites g = Some old \<longrightarrow>
      fst (detectUsedInvite (Inr new) g invites) =
        find (\<lambda>inv. \<exists>u. old (code inv) = Some u \<and> u < uses inv) new)"
proof -
  have "fst (detectUsedInvite (Inr [sample_invite ''A'' 5, sample_invite ''B'' 3]) g
        (invites(g \<mapsto> cached_counts))) = Some (sample_invite ''B'' 3)"
    by (simp add: detectUsedInvite_def sample_invite_def cached_counts_def js_def)
  moreover have "fst (detectUsedInvite fetched g invites) = None" if "invites g = None"
    using that by (simp add: detectUsedInvite_def split: sum.splits)
  moreover have "fst (detectUsedInvite (Inr new) g invites) =
        find (\<lambda>inv. \<exists>u. old (code inv) = Some u \<and> u < uses inv) new" if "invites g = Some old"
  proof -
    have "(case old c of None \<Rightarrow> False | Some oldUses \<Rightarrow> oldUses < n) \<longleftrightarrow>
        (\<exists>u. old c = Some u \<and> u < n)" for c n
      by (cases "old c") simp_all
    with that show ?thesis by (simp add: detectUsedInvite_def)
  qed
  ultimately show ?thesis by blast
qed

theorem detectUsedInvite_first_increase_witness:
  "(Map.empty :: invite_cache) (js ''g'') = None \<and>
   fst (detectUsedInvite (Inr [sample_invite ''A'' 5]) (js ''g'') Map.empty) = None \<and>
   fst (detectUsedInvite (Inl ApiError) (js ''g'') Map.empty) = None \<and>
   [js ''g'' \<mapsto> cached_counts] (js ''g'') = Some cached_counts \<and>
   fst (detectUsedInvite (Inr [sample_invite ''A'' 5, sample_invite ''B'' 3]) (js ''g'')
         [js ''g'' \<mapsto> cached_counts]) = Some (sample_invite ''B'' 3)"
  using
    detectUsedInvite_first_increase[of "js ''g''" Map.empty "Inr [sample_invite ''A'' 5]"]
    detectUsedInvite_first_increase[of "js ''g''" Map.empty "Inl ApiError"]
    detectUsedInvite_first_increase[of "js ''g''" Map.empty]
  by simp

text \<open>
  C6, as stated, fails where it says that the cache is refreshed even when the guild had
  no entry: the function returns before the refresh, and the guild still has none.
\<close>

theorem detectUsedInvite_no_entry_counterexample:
  "snd (detectUsedInvite (Inr [sample_invite ''A'' 5]) (js ''g'') Map.empty) (js ''g'') = None"
  by (simp add: detectUsedInvite_def)

text \<open>
  C6, amended. After a call of \<open>detectUsedInvite\<close> in which the fetch succeeds and the
  guild already has a cache entry, that entry is replaced by the fetched counts, whether
  or not an invite was detected: its codes are the fetched codes, and each fetched invite's
  code maps to that invite's count (the codes of a fetch being distinct).
\<close>

theorem detectUsedInvite_refreshes_entry:
  assumes "invites g = Some old"
  shows "\<exists>m. snd (detectUsedInvite (Inr new) g invites) = invites(g \<mapsto> m) \<and>
     dom m = code ` set new \<and>
     (distinct (map code new) \<longrightarrow> (\<forall>inv \<in> set new. m (code inv) = Some (uses inv)))"
proof -
  let ?m = "collection_of (map (\<lambda>invite. (code invite, uses invite)) new)"
  have "snd (detectUsedInvite (Inr new) g invites) = invites(g \<mapsto> ?m)"
    using assms by (simp add: detectUsedInvite_def)
  moreover have "dom ?m = code ` set new"
    by (simp add: dom_collection_of image_image)
  moreover have "?m (code inv) = Some (uses inv)"
    if "distinct (map code new)" "inv \<in> set new" for inv
    using that by (intro collection_of_distinct) (auto simp: comp_def)
  ultimately show ?thesis by blast
qed

theorem detectUsedInvite_refreshes_entry_witness:
  "[js ''g'' \<mapsto> cached_counts] (js ''g'') = Some cached_counts \<and>
   (\<exists>m. snd (detectUsedInvite (Inr [sample_invite ''A'' 5, sample_invite ''B'' 3]) (js ''g'')
            [js ''g'' \<mapsto> cached_counts]) (js ''g'') = Some m \<and>
        m (js ''A'') = Some 5 \<and> m (js ''B'') = Some 3 \<and> m (js ''C'') = None)"
proof -
  have entry: "[js ''g'' \<mapsto> cached_counts] (js ''g'') = Some cached_counts"
    by simp
  from detectUsedInvite_refreshes_entry[of "[js ''g'' \<mapsto> cached_counts]" "js ''g''" cached_counts
      "[sample_invite ''A'' 5, sample_invite ''B'' 3]"] entry
  obtain m where m: "snd (detectUsedInvite (Inr [sample_invite ''A'' 5, sample_invite ''B'' 3]) (js ''g'')
            [js ''g'' \<mapsto> cached_counts]) = [js ''g'' \<mapsto> cached_counts](js ''g'' \<mapsto> m)"
    and d: "dom m = code ` set [sample_invite ''A'' 5, sample_invite ''B'' 3]"
    and v: "distinct (map code [sample_invite ''A'' 5, sample_invite ''B'' 3]) \<longrightarrow>
      (\<forall>inv \<in> set [sample_invite ''A'' 5, sample_invite ''B'' 3]. m (code inv) = Some (uses inv))"
    by blast
  have "distinct (map code [sample_invite ''A'' 5, sample_invite ''B'' 3])"
    by (simp add: sample_invite_def js_def)
  with v have "m (js ''A'') = Some 5" "m (js ''B'') = Some 3"
    by (auto simp: sample_invite_def)
  moreover have "js ''C'' \<notin> dom m"
    unfolding d by (simp add: sample_invite_def js_def)
  then have "m (js ''C'') = None" by blast
  moreover from m have "snd (detectUsedInvite (Inr [sample_invite ''A'' 5, sample_invite ''B'' 3]) (js ''g'')
            [js ''g'' \<mapsto> cached_counts]) (js ''g'') = Some m"
    by simp
  ultimately show ?thesis using entry by blast
qed

end
